theory Spec2Isabelle
  imports Complex_Main
begin

text \<open>
  The clause extraction of \<open>src/pages/DocumentAnalysis.tsx\<close>: the function
  \<open>parseNestedClauses\<close> (lines 227 to 338), the function \<open>generateSummary\<close> (lines 342 to 363)
  and the values the component computes from them for rendering, \<open>parsedClauses\<close> to
  \<open>finalSummary\<close> (lines 366 to 404).  The string methods, the regular expressions and the
  built-ins \<open>JSON.parse\<close> and \<open>JSON.stringify\<close> that this code calls are modelled first.  An
  exception is a value: a function that may throw returns \<open>error + 'a\<close>.
\<close>

section \<open>Strings\<close>

text \<open>
  A JavaScript string is modelled as a \<open>string\<close>: one \<open>char\<close> per UTF-16 code unit, for the
  code units U+0000 to U+00FF.  The white space of \<open>\s\<close> and of \<open>String.prototype.trim\<close> in
  that range is TAB, LF, VT, FF, CR, SPACE and NBSP.
\<close>

definition is_space :: "char \<Rightarrow> bool" where
  "is_space c \<longleftrightarrow> c \<in> set [CHR 0x09, CHR 0x0A, CHR 0x0B, CHR 0x0C, CHR 0x0D, CHR 0x20, CHR 0xA0]"

definition trim :: "string \<Rightarrow> string" where
  "trim s = rev (dropWhile is_space (rev (dropWhile is_space s)))"

definition ascii_lower :: "char \<Rightarrow> char" where
  "ascii_lower c =
     (if 0x41 \<le> (of_char c :: nat) \<and> (of_char c :: nat) \<le> 0x5A then char_of ((of_char c :: nat) + 0x20) else c)"

definition fence :: string where
  "fence = [CHR 0x60, CHR 0x60, CHR 0x60]"

text \<open>The optional group \<open>(?:json)?\<close> under the \<open>i\<close> flag: greedy, so it is taken when present.\<close>

definition skip_json :: "string \<Rightarrow> string" where
  "skip_json s = (if map ascii_lower (take 4 s) = ''json'' then drop 4 s else s)"

text \<open>\<open>s.replace(/```(?:json)?\s*/i, '')\<close>: the leftmost fence, its tag and the white space after
  it are removed; the pattern is not anchored and has no \<open>g\<close> flag.\<close>

fun replace_fence_open :: "string \<Rightarrow> string" where
  "replace_fence_open [] = []"
| "replace_fence_open (c # cs) =
     (if take 3 (c # cs) = fence then dropWhile is_space (skip_json (drop 2 cs))
      else c # replace_fence_open cs)"

text \<open>\<open>s.replace(/\s*```$/i, '')\<close>: the pattern matches only a fence that ends the string,
  together with the whole run of white space before it (the leftmost start wins).\<close>

definition replace_fence_close :: "string \<Rightarrow> string" where
  "replace_fence_close s =
     (if take 3 (rev s) = fence then rev (dropWhile is_space (drop 3 (rev s))) else s)"

text \<open>\<open>candidate.replace(/```(?:json)?\s*/i, '').replace(/\s*```$/i, '').trim()\<close>, the
  expression behind \<open>cleaned\<close> in \<open>parseNestedClauses\<close> and behind \<open>cleanedInnerBlock\<close>.\<close>

definition strip_fences :: "string \<Rightarrow> string" where
  "strip_fences candidate = trim (replace_fence_close (replace_fence_open candidate))"

fun has_fence :: "string \<Rightarrow> bool" where
  "has_fence [] = False"
| "has_fence (c # cs) = (take 3 (c # cs) = fence \<or> has_fence cs)"

text \<open>\<open>cleaned.replace(/^\"|\"$/g, '')\<close>: a double quote at the very start and a double quote at
  the very end are removed, each on its own; a string that is one double quote becomes empty.\<close>

definition unquoted :: "string \<Rightarrow> string" where
  "unquoted s =
     (let s1 = (case s of [] \<Rightarrow> [] | c # cs \<Rightarrow> if c = CHR 0x22 then cs else s)
      in if s1 \<noteq> [] \<and> last s1 = CHR 0x22 then butlast s1 else s1)"

text \<open>\<open>s.replace(/\\c/g, rep)\<close> for a pattern of two characters, a backslash followed by \<open>c\<close>:
  every match found in one scan from the left, matches not overlapping.\<close>

fun replace_escape :: "char \<Rightarrow> string \<Rightarrow> string \<Rightarrow> string" where
  "replace_escape c rep (x # y # r) =
     (if x = CHR 0x5C \<and> y = c then rep @ replace_escape c rep r
      else x # replace_escape c rep (y # r))"
| "replace_escape c rep s = s"

text \<open>\<open>cleaned.replace(/\\n/g, '').replace(/\\r/g, '').replace(/\\"/g, '"')\<close>\<close>

definition unescaped :: "string \<Rightarrow> string" where
  "unescaped s =
     replace_escape (CHR 0x22) [CHR 0x22] (replace_escape CHR ''r'' [] (replace_escape CHR ''n'' [] s))"

text \<open>\<open>indexOf\<close> and \<open>lastIndexOf\<close> of one character: \<open>None\<close> stands for \<open>-1\<close>.\<close>

fun indexOf :: "string \<Rightarrow> char \<Rightarrow> nat option" where
  "indexOf [] c = None"
| "indexOf (x # xs) c = (if x = c then Some 0 else map_option Suc (indexOf xs c))"

definition lastIndexOf :: "string \<Rightarrow> char \<Rightarrow> nat option" where
  "lastIndexOf s c = map_option (\<lambda>i. length s - 1 - i) (indexOf (rev s) c)"

text \<open>\<open>s.substring(a, b)\<close> for \<open>a \<le> b\<close>.\<close>

definition substring :: "string \<Rightarrow> nat \<Rightarrow> nat \<Rightarrow> string" where
  "substring s a b = take (b - a) (drop a s)"

text \<open>The bracket-delimited substring that Fallback 2 and the scan of the whole payload
  cut out: from the first \<open>[\<close> to the last \<open>]\<close>, when the last one comes later.\<close>

definition bracket_substring :: "string \<Rightarrow> string option" where
  "bracket_substring s =
     (case (indexOf s CHR ''['', lastIndexOf s CHR '']'') of
        (Some firstBracket, Some lastBracket) \<Rightarrow>
          if lastBracket > firstBracket then Some (substring s firstBracket (lastBracket + 1)) else None
      | _ \<Rightarrow> None)"

text \<open>\<open>text.match(/{[\s\S]*?}/g) || []\<close>: each match runs from a \<open>{\<close> to the first
  \<open>}\<close> after it (the quantifier is lazy); the search goes on after the match.\<close>

fun until_close :: "string \<Rightarrow> (string \<times> string) option" where
  "until_close [] = None"
| "until_close (c # cs) =
     (if c = CHR ''}'' then Some ([c], cs)
      else map_option (\<lambda>(m, r). (c # m, r)) (until_close cs))"

lemma until_close_shorter: "until_close s = Some (m, r) \<Longrightarrow> length r < length s"
  by (induction s arbitrary: m r) (auto split: if_splits)

function match_objects :: "string \<Rightarrow> string list" where
  "match_objects [] = []"
| "match_objects (c # cs) =
     (if c = CHR ''{'' then
        (case until_close cs of
           None \<Rightarrow> []
         | Some (m, r) \<Rightarrow> (c # m) # match_objects r)
      else match_objects cs)"
  by pat_completeness auto
termination
  by (relation "measure length") (auto dest: until_close_shorter)

section \<open>Values\<close>

text \<open>
  The payload is what the HTTP client decoded from a JSON body, so a value is \<open>null\<close>, a
  boolean, a number, a string, an array or an object.  An object lists its own properties in
  their enumeration order; a lookup reads the first entry of a key.  A number is modelled by
  its exact rational value: the rounding to IEEE doubles is left out.  \<open>undefined\<close>, the result
  of reading a property that is not there, is \<open>None\<close> of \<open>json option\<close>.
\<close>

datatype json =
    JNull
  | JBool bool
  | JNum rat
  | JStr string
  | JArr "json list"
  | JObj "(string \<times> json) list"

datatype error = TypeError

text \<open>\<open>!x\<close> is the negation of this.\<close>

fun truthy :: "json \<Rightarrow> bool" where
  "truthy JNull = False"
| "truthy (JBool b) = b"
| "truthy (JNum q) = (q \<noteq> 0)"
| "truthy (JStr s) = (s \<noteq> [])"
| "truthy (JArr xs) = True"
| "truthy (JObj kvs) = True"

text \<open>\<open>x.k\<close> for a value \<open>x\<close> that is neither \<open>null\<close> nor \<open>undefined\<close>, and a name \<open>k\<close>
  that no built-in prototype defines (every name the program reads is one: \<open>clauses\<close>,
  \<open>text\<close>, \<open>body\<close>, \<open>summary\<close>, \<open>id\<close>, \<open>risk\<close>, ...): only an object has it.\<close>

fun get_prop :: "string \<Rightarrow> json \<Rightarrow> json option" where
  "get_prop k (JObj kvs) = map_of kvs k"
| "get_prop k x = None"

text \<open>\<open>x[0]\<close> for such an \<open>x\<close>: the first element of an array, the property \<open>"0"\<close> of an
  object, the first character of a string.\<close>

fun index0 :: "json \<Rightarrow> json option" where
  "index0 (JArr xs) = (case xs of [] \<Rightarrow> None | x # _ \<Rightarrow> Some x)"
| "index0 (JObj kvs) = map_of kvs ''0''"
| "index0 (JStr s) = (case s of [] \<Rightarrow> None | c # _ \<Rightarrow> Some (JStr [c]))"
| "index0 x = None"

text \<open>Optional chaining \<open>a?.f\<close> and nullish coalescing \<open>a ?? b\<close>.\<close>

fun chain :: "json option \<Rightarrow> (json \<Rightarrow> json option) \<Rightarrow> json option" where
  "chain None f = None"
| "chain (Some JNull) f = None"
| "chain (Some x) f = f x"

fun nullish :: "json option \<Rightarrow> bool" where
  "nullish None = True"
| "nullish (Some JNull) = True"
| "nullish (Some x) = False"

definition coalesce :: "json option \<Rightarrow> json option \<Rightarrow> json option" where
  "coalesce a b = (if nullish a then b else a)"

text \<open>\<open>a ?? d\<close> with a literal \<open>d\<close> on the right.\<close>

definition or_else :: "json option \<Rightarrow> json \<Rightarrow> json" where
  "or_else a d = (case a of None \<Rightarrow> d | Some x \<Rightarrow> if x = JNull then d else x)"

subsection \<open>Conversion to strings\<close>

function digits :: "nat \<Rightarrow> string" where
  "digits n = (if n < 10 then [''0123456789'' ! n] else digits (n div 10) @ [''0123456789'' ! (n mod 10)])"
  by pat_completeness auto
termination
  by (relation "measure id") auto

fun fraction_digits :: "nat \<Rightarrow> rat \<Rightarrow> string" where
  "fraction_digits 0 r = []"
| "fraction_digits (Suc n) r =
     (if r = 0 then []
      else ''0123456789'' ! nat \<lfloor>r * 10\<rfloor> # fraction_digits n (r * 10 - of_int \<lfloor>r * 10\<rfloor>))"

text \<open>\<open>Number.prototype.toString\<close> on the exact value: an integer in decimal, any other value
  with its decimal digits after the point, at most 17 of them.  The exponent notation of large
  and small magnitudes is not modelled.\<close>

definition Number_toString :: "rat \<Rightarrow> string" where
  "Number_toString q =
     (if q < 0 then ''-'' else []) @ digits (nat \<lfloor>\<bar>q\<bar>\<rfloor>) @
     (if frac \<bar>q\<bar> = 0 then [] else ''.'' @ fraction_digits 17 (frac \<bar>q\<bar>))"

fun intercalate :: "string \<Rightarrow> string list \<Rightarrow> string" where
  "intercalate sep [] = []"
| "intercalate sep [s] = s"
| "intercalate sep (s # t # ss) = s @ sep @ intercalate sep (t # ss)"

text \<open>
  \<open>ToString\<close> of a value, which is also what \<open>x.toString()\<close> returns for every value but
  \<open>null\<close>.  An array joins its elements with commas, \<open>null\<close> elements giving the empty
  string.  An object gives \<open>[object Object]\<close>, unless it has a property \<open>toString\<close> of its own:
  that property holds a JSON value, which cannot be called, and the conversion throws.
\<close>

fun ToString :: "json \<Rightarrow> error + string"
  and element_strings :: "json list \<Rightarrow> error + string list" where
  "ToString JNull = Inr ''null''"
| "ToString (JBool b) = Inr (if b then ''true'' else ''false'')"
| "ToString (JNum q) = Inr (Number_toString q)"
| "ToString (JStr s) = Inr s"
| "ToString (JArr xs) =
     (case element_strings xs of Inl e \<Rightarrow> Inl e | Inr ss \<Rightarrow> Inr (intercalate '','' ss))"
| "ToString (JObj kvs) =
     (if ''toString'' \<in> set (map fst kvs) then Inl TypeError else Inr ''[object Object]'')"
| "element_strings [] = Inr []"
| "element_strings (x # xs) =
     (case (if x = JNull then Inr [] else ToString x) of
        Inl e \<Rightarrow> Inl e
      | Inr s \<Rightarrow> (case element_strings xs of Inl e \<Rightarrow> Inl e | Inr ss \<Rightarrow> Inr (s # ss)))"

text \<open>\<open>xs.join(sep)\<close>\<close>

definition join :: "string \<Rightarrow> json list \<Rightarrow> error + string" where
  "join sep xs = (case element_strings xs of Inl e \<Rightarrow> Inl e | Inr ss \<Rightarrow> Inr (intercalate sep ss))"

text \<open>\<open>toLowerCase\<close> on the code units up to U+00FF: the letters A to Z, and the capital
  letters U+00C0 to U+00DE but for the multiplication sign U+00D7.\<close>

definition lower_char :: "char \<Rightarrow> char" where
  "lower_char c =
     (let n = (of_char c :: nat)
      in if (0x41 \<le> n \<and> n \<le> 0x5A) \<or> (0xC0 \<le> n \<and> n \<le> 0xDE \<and> n \<noteq> 0xD7)
         then char_of (n + 0x20) else c)"

definition toLowerCase :: "string \<Rightarrow> string" where
  "toLowerCase s = map lower_char s"

section \<open>\<open>JSON.parse\<close> and \<open>JSON.stringify\<close>\<close>

text \<open>
  The two built-ins, modelled on the JSON grammar of ECMA-404: a lexer, then a parser that
  reads the tokens from left to right with a stack of the arrays and objects still open.
  \<open>JSON_parse\<close> returns \<open>None\<close> where \<open>JSON.parse\<close> throws a \<open>SyntaxError\<close>, and a
  value for every text of the grammar.  The strings of the model hold the code units up to
  \<open>U+00FF\<close>: a \<open>\u\<close> escape that names a higher code unit is accepted, as \<open>JSON.parse\<close>
  accepts it, and stays in the decoded string as its six characters, the hexadecimal digits
  in lower case.  The members of an object are listed in the order of the text, where an
  engine lists the names that are array indices first; the program enumerates no object that
  \<open>JSON.parse\<close> returns, it reads their properties by name.
\<close>

datatype token =
    TLBrace | TRBrace | TLBracket | TRBracket | TColon | TComma
  | TStr string | TNum rat | TTrue | TFalse | TNull

definition is_json_space :: "char \<Rightarrow> bool" where
  "is_json_space c \<longleftrightarrow> c \<in> set [CHR 0x20, CHR 0x09, CHR 0x0A, CHR 0x0D]"

definition is_digit :: "char \<Rightarrow> bool" where
  "is_digit c \<longleftrightarrow> 0x30 \<le> (of_char c :: nat) \<and> (of_char c :: nat) \<le> 0x39"

definition digit_value :: "char \<Rightarrow> nat" where
  "digit_value c = (of_char c :: nat) - 0x30"

definition hex_value :: "char \<Rightarrow> nat option" where
  "hex_value c =
     (let n = (of_char c :: nat)
      in if 0x30 \<le> n \<and> n \<le> 0x39 then Some (n - 0x30)
         else if 0x41 \<le> n \<and> n \<le> 0x46 then Some (n - 0x37)
         else if 0x61 \<le> n \<and> n \<le> 0x66 then Some (n - 0x57)
         else None)"

definition hex_digit :: "nat \<Rightarrow> char" where
  "hex_digit n = ''0123456789abcdef'' ! n"

text \<open>The four hexadecimal digits of a \<open>\u\<close> escape: the code unit they name, or the escape
  itself when the code unit is above \<open>U+00FF\<close>; nothing when one of them is no digit.\<close>

definition hex4 :: "string \<Rightarrow> string option" where
  "hex4 s =
     (case map hex_value s of
        [Some a, Some b, Some c, Some d] \<Rightarrow>
          if a = 0 \<and> b = 0 then Some [char_of (16 * c + d)]
          else Some ([CHR 0x5C, CHR ''u''] @ map hex_digit [a, b, c, d])
      | _ \<Rightarrow> None)"

definition escape_char :: "char \<Rightarrow> char option" where
  "escape_char e =
     (if e = CHR 0x22 \<or> e = CHR 0x5C \<or> e = CHR ''/'' then Some e
      else if e = CHR ''b'' then Some (CHR 0x08)
      else if e = CHR ''f'' then Some (CHR 0x0C)
      else if e = CHR ''n'' then Some (CHR 0x0A)
      else if e = CHR ''r'' then Some (CHR 0x0D)
      else if e = CHR ''t'' then Some (CHR 0x09)
      else None)"

text \<open>The characters of a string literal after its opening quote: the decoded string and
  the input left after the closing quote.\<close>

fun lex_string :: "string \<Rightarrow> (string \<times> string) option" where
  "lex_string [] = None"
| "lex_string (c # cs) =
     (if c = CHR 0x22 then Some ([], cs)
      else if c = CHR 0x5C then
        (case cs of
           [] \<Rightarrow> None
         | e # r \<Rightarrow>
             if e = CHR ''u'' then
               (case hex4 (take 4 r) of
                  None \<Rightarrow> None
                | Some u \<Rightarrow> map_option (\<lambda>(s, r'). (u @ s, r')) (lex_string (drop 4 r)))
             else
               (case escape_char e of
                  None \<Rightarrow> None
                | Some ch \<Rightarrow> map_option (\<lambda>(s, r'). (ch # s, r')) (lex_string r)))
      else if (of_char c :: nat) < 0x20 then None
      else map_option (\<lambda>(s, r'). (c # s, r')) (lex_string cs))"

definition number_of_digits :: "string \<Rightarrow> nat" where
  "number_of_digits ds = foldl (\<lambda>a d. 10 * a + digit_value d) 0 ds"

text \<open>The optional fraction of a number: its digits (none when there is no point).\<close>

definition lex_fraction :: "string \<Rightarrow> (string \<times> string) option" where
  "lex_fraction s =
     (case s of
        [] \<Rightarrow> Some ([], s)
      | c # r \<Rightarrow>
          if c = CHR ''.'' then
            (if takeWhile is_digit r = [] then None
             else Some (takeWhile is_digit r, dropWhile is_digit r))
          else Some ([], s))"

definition lex_sign :: "string \<Rightarrow> bool \<times> string" where
  "lex_sign s =
     (case s of
        [] \<Rightarrow> (False, s)
      | c # r \<Rightarrow> if c = CHR ''-'' then (True, r) else if c = CHR ''+'' then (False, r) else (False, s))"

text \<open>The optional exponent of a number (0 when there is none).\<close>

definition lex_exponent :: "string \<Rightarrow> (int \<times> string) option" where
  "lex_exponent s =
     (case s of
        [] \<Rightarrow> Some (0, s)
      | c # r \<Rightarrow>
          if c = CHR ''e'' \<or> c = CHR ''E'' then
            (case lex_sign r of
               (neg, r1) \<Rightarrow>
                 if takeWhile is_digit r1 = [] then None
                 else Some ((if neg then - int (number_of_digits (takeWhile is_digit r1))
                             else int (number_of_digits (takeWhile is_digit r1))),
                            dropWhile is_digit r1))
          else Some (0, s))"

definition scale10 :: "rat \<Rightarrow> int \<Rightarrow> rat" where
  "scale10 m k = (if 0 \<le> k then m * 10 ^ nat k else m / 10 ^ nat (- k))"

text \<open>A number: an optional minus, an integer part without a leading zero, an optional
  fraction and an optional exponent.\<close>

definition lex_number :: "string \<Rightarrow> (rat \<times> string) option" where
  "lex_number s =
     (let neg = (s \<noteq> [] \<and> hd s = CHR ''-'');
          s1 = (if neg then tl s else s);
          ip = takeWhile is_digit s1
      in if ip = [] \<or> (hd ip = CHR ''0'' \<and> length ip > 1) then None
         else
           case lex_fraction (dropWhile is_digit s1) of
             None \<Rightarrow> None
           | Some (fp, s2) \<Rightarrow>
               (case lex_exponent s2 of
                  None \<Rightarrow> None
                | Some (e, s3) \<Rightarrow>
                    Some (scale10 ((if neg then - 1 else 1) * of_nat (number_of_digits (ip @ fp)))
                            (e - int (length fp)), s3)))"

lemma lex_string_shorter: "lex_string s = Some (v, r) \<Longrightarrow> length r < length s"
proof (induction s arbitrary: v r rule: lex_string.induct)
  case 1
  then show ?case by simp
next
  case (2 c cs)
  then show ?case
    by (fastforce split: if_splits list.splits option.splits)
qed

lemma lex_fraction_shorter: "lex_fraction s = Some (v, r) \<Longrightarrow> length r \<le> length s"
  by (auto simp: lex_fraction_def split: list.splits if_splits
      intro: le_trans [OF length_dropWhile_le])

lemma lex_exponent_shorter: "lex_exponent s = Some (v, r) \<Longrightarrow> length r \<le> length s"
  by (auto simp: lex_exponent_def lex_sign_def split: list.splits if_splits prod.splits
      intro: le_trans [OF length_dropWhile_le])

lemma lex_number_shorter:
  assumes "lex_number s = Some (v, r)" shows "length r < length s"
proof -
  let ?neg = "s \<noteq> [] \<and> hd s = CHR ''-''"
  let ?s1 = "if ?neg then tl s else s"
  from assms have ip: "takeWhile is_digit ?s1 \<noteq> []"
    by (auto simp: lex_number_def Let_def split: if_splits)
  from assms obtain fp s2 e where
    f: "lex_fraction (dropWhile is_digit ?s1) = Some (fp, s2)" and x: "lex_exponent s2 = Some (e, r)"
    by (auto simp: lex_number_def Let_def split: if_splits option.splits)
  have "length (dropWhile is_digit ?s1) < length ?s1"
    using ip by (metis length_append length_greater_0_conv less_add_same_cancel2
        takeWhile_dropWhile_id)
  moreover have "length ?s1 \<le> length s" by simp
  ultimately show ?thesis
    using lex_fraction_shorter [OF f] lex_exponent_shorter [OF x] by linarith
qed

function lex :: "string \<Rightarrow> token list option" where
  "lex [] = Some []"
| "lex (c # cs) =
     (if is_json_space c then lex cs
      else if c = CHR ''{'' then map_option ((#) TLBrace) (lex cs)
      else if c = CHR ''}'' then map_option ((#) TRBrace) (lex cs)
      else if c = CHR ''['' then map_option ((#) TLBracket) (lex cs)
      else if c = CHR '']'' then map_option ((#) TRBracket) (lex cs)
      else if c = CHR '':'' then map_option ((#) TColon) (lex cs)
      else if c = CHR '','' then map_option ((#) TComma) (lex cs)
      else if c = CHR 0x22 then
        (case lex_string cs of
           None \<Rightarrow> None
         | Some (s, r) \<Rightarrow> map_option ((#) (TStr s)) (lex r))
      else if c = CHR ''-'' \<or> is_digit c then
        (case lex_number (c # cs) of
           None \<Rightarrow> None
         | Some (q, r) \<Rightarrow> map_option ((#) (TNum q)) (lex r))
      else if take 4 (c # cs) = ''true'' then map_option ((#) TTrue) (lex (drop 3 cs))
      else if take 5 (c # cs) = ''false'' then map_option ((#) TFalse) (lex (drop 4 cs))
      else if take 4 (c # cs) = ''null'' then map_option ((#) TNull) (lex (drop 3 cs))
      else None)"
  by pat_completeness auto
termination
proof (relation "measure length", goal_cases)
  case (9 c cs x2 x y)
  then show ?case using lex_string_shorter [of cs x y] by simp
next
  case (10 c cs x2 x y)
  then show ?case using lex_number_shorter [of "c # cs" x y] by simp
qed simp_all

declare lex.simps [simp del]

text \<open>An open array with the elements read so far, or an open object with its members and
  the key whose value is being read.\<close>

datatype frame = FArr "json list" | FObj "(string \<times> json) list" string

text \<open>What the parser may read next: a value; a value or \<open>]\<close> (after \<open>[\<close>); a key or \<open>}\<close>
  (after \<open>{\<close>); a key (after a comma in an object); a colon; a comma or the closing bracket;
  nothing more, the value being complete.\<close>

datatype expect = XValue | XFirstElement | XFirstKey | XKey | XColon | XNext | XDone json

text \<open>A property of an object being built: a key given again keeps its place and takes the
  later value.\<close>

fun set_member :: "string \<Rightarrow> json \<Rightarrow> (string \<times> json) list \<Rightarrow> (string \<times> json) list" where
  "set_member k v [] = [(k, v)]"
| "set_member k v ((k', v') # ms) = (if k' = k then (k, v) # ms else (k', v') # set_member k v ms)"

text \<open>A complete value goes to the innermost open array or object, or is the result.\<close>

fun deliver :: "frame list \<Rightarrow> json \<Rightarrow> frame list \<times> expect" where
  "deliver [] v = ([], XDone v)"
| "deliver (FArr xs # st) v = (FArr (xs @ [v]) # st, XNext)"
| "deliver (FObj ms k # st) v = (FObj (set_member k v ms) k # st, XNext)"

fun begin_value :: "frame list \<Rightarrow> token \<Rightarrow> (frame list \<times> expect) option" where
  "begin_value st TLBracket = Some (FArr [] # st, XFirstElement)"
| "begin_value st TLBrace = Some (FObj [] [] # st, XFirstKey)"
| "begin_value st (TStr s) = Some (deliver st (JStr s))"
| "begin_value st (TNum q) = Some (deliver st (JNum q))"
| "begin_value st TTrue = Some (deliver st (JBool True))"
| "begin_value st TFalse = Some (deliver st (JBool False))"
| "begin_value st TNull = Some (deliver st JNull)"
| "begin_value st t = None"

fun begin_key :: "frame list \<Rightarrow> token \<Rightarrow> (frame list \<times> expect) option" where
  "begin_key (FObj ms k # st) (TStr s) = Some (FObj ms s # st, XColon)"
| "begin_key st t = None"

fun close_array :: "frame list \<Rightarrow> (frame list \<times> expect) option" where
  "close_array (FArr xs # st) = Some (deliver st (JArr xs))"
| "close_array st = None"

fun close_object :: "frame list \<Rightarrow> (frame list \<times> expect) option" where
  "close_object (FObj ms k # st) = Some (deliver st (JObj ms))"
| "close_object st = None"

fun parse_step :: "frame list \<times> expect \<Rightarrow> token \<Rightarrow> (frame list \<times> expect) option" where
  "parse_step (st, XValue) t = begin_value st t"
| "parse_step (st, XFirstElement) t = (if t = TRBracket then close_array st else begin_value st t)"
| "parse_step (st, XFirstKey) t = (if t = TRBrace then close_object st else begin_key st t)"
| "parse_step (st, XKey) t = begin_key st t"
| "parse_step (st, XColon) t = (if t = TColon then Some (st, XValue) else None)"
| "parse_step (st, XNext) t =
     (case st of
        [] \<Rightarrow> None
      | FArr xs # _ \<Rightarrow>
          if t = TComma then Some (st, XValue) else if t = TRBracket then close_array st else None
      | FObj ms k # _ \<Rightarrow>
          if t = TComma then Some (st, XKey) else if t = TRBrace then close_object st else None)"
| "parse_step (st, XDone v) t = None"

fun parse_tokens :: "frame list \<times> expect \<Rightarrow> token list \<Rightarrow> (frame list \<times> expect) option" where
  "parse_tokens p [] = Some p"
| "parse_tokens p (t # ts) = (case parse_step p t of None \<Rightarrow> None | Some p' \<Rightarrow> parse_tokens p' ts)"

definition JSON_parse :: "string \<Rightarrow> json option" where
  "JSON_parse text =
     (case lex text of
        None \<Rightarrow> None
      | Some ts \<Rightarrow>
          (case parse_tokens ([], XValue) ts of
             Some ([], XDone v) \<Rightarrow> Some v
           | _ \<Rightarrow> None))"

text \<open>\<open>QuoteJSONString\<close>: the quote, the backslash and the control characters are escaped.\<close>

definition quote_char :: "char \<Rightarrow> string" where
  "quote_char c =
     (if c = CHR 0x22 then [CHR 0x5C, CHR 0x22]
      else if c = CHR 0x5C then [CHR 0x5C, CHR 0x5C]
      else if c = CHR 0x08 then [CHR 0x5C, CHR ''b'']
      else if c = CHR 0x0C then [CHR 0x5C, CHR ''f'']
      else if c = CHR 0x0A then [CHR 0x5C, CHR ''n'']
      else if c = CHR 0x0D then [CHR 0x5C, CHR ''r'']
      else if c = CHR 0x09 then [CHR 0x5C, CHR ''t'']
      else if (of_char c :: nat) < 0x20 then
        [CHR 0x5C, CHR ''u'', CHR ''0'', CHR ''0'', hex_digit ((of_char c :: nat) div 16),
         hex_digit ((of_char c :: nat) mod 16)]
      else [c])"

definition quote :: "string \<Rightarrow> string" where
  "quote s = [CHR 0x22] @ concat (map quote_char s) @ [CHR 0x22]"

text \<open>\<open>JSON.stringify(value)\<close> with no replacer and no indentation, for a value decoded from
  JSON: it has no \<open>undefined\<close>, no function and no cycle, so a string always comes back.\<close>

fun JSON_stringify :: "json \<Rightarrow> string"
  and stringify_elements :: "json list \<Rightarrow> string list"
  and stringify_members :: "(string \<times> json) list \<Rightarrow> string list" where
  "JSON_stringify JNull = ''null''"
| "JSON_stringify (JBool b) = (if b then ''true'' else ''false'')"
| "JSON_stringify (JNum q) = Number_toString q"
| "JSON_stringify (JStr s) = quote s"
| "JSON_stringify (JArr xs) = ''['' @ intercalate '','' (stringify_elements xs) @ '']''"
| "JSON_stringify (JObj kvs) = ''{'' @ intercalate '','' (stringify_members kvs) @ ''}''"
| "stringify_elements [] = []"
| "stringify_elements (x # xs) = JSON_stringify x # stringify_elements xs"
| "stringify_members [] = []"
| "stringify_members ((k, v) # kvs) = (quote k @ '':'' @ JSON_stringify v) # stringify_members kvs"

section \<open>Clause records\<close>

record clause =
  c_id :: json
  c_text :: json
  c_type :: json
  c_risk :: string
  c_implications :: json

text \<open>One step of \<open>normalize\<close>: the body of the arrow function given to \<open>arr.map\<close>.  Reading a
  property of \<open>null\<close> throws a \<open>TypeError\<close>, and so can \<open>toString\<close>.\<close>

definition normalize_item :: "nat \<Rightarrow> json \<Rightarrow> error + clause" where
  "normalize_item idx item =
     (if item = JNull then Inl TypeError
      else
        case ToString (or_else (coalesce (get_prop ''risk_level'' item) (get_prop ''risk'' item)) (JStr ''moderate'')) of
          Inl e \<Rightarrow> Inl e
        | Inr r \<Rightarrow> Inr \<lparr>
            c_id = JNum (of_nat idx),
            c_text = or_else (coalesce (get_prop ''clause_text'' item) (get_prop ''text'' item)) (JStr []),
            c_type = or_else (coalesce (coalesce (get_prop ''clause_type_category'' item) (get_prop ''clause_type'' item))
                       (get_prop ''type'' item)) (JStr ''Unspecified''),
            c_risk = toLowerCase r,
            c_implications = or_else (coalesce (get_prop ''brief_explanation_of_implications'' item)
                       (get_prop ''implications'' item)) JNull \<rparr>)"

text \<open>\<open>arr.map(f)\<close> for an \<open>f\<close> that may throw, the index counting from \<open>idx\<close>: the first
  exception ends the loop.\<close>

fun map_indexed :: "(nat \<Rightarrow> json \<Rightarrow> error + clause) \<Rightarrow> nat \<Rightarrow> json list \<Rightarrow> error + clause list" where
  "map_indexed f idx [] = Inr []"
| "map_indexed f idx (item # items) =
     (case f idx item of
        Inl e \<Rightarrow> Inl e
      | Inr c \<Rightarrow> (case map_indexed f (Suc idx) items of Inl e \<Rightarrow> Inl e | Inr cs \<Rightarrow> Inr (c # cs)))"

definition normalize :: "json list \<Rightarrow> error + clause list" where
  "normalize arr = map_indexed normalize_item 0 arr"

text \<open>The arrow function of the last resort, \<open>rawData.clauses.map((it) => ...)\<close>: other names,
  another order, and the \<open>id\<close> of the source kept.\<close>

definition direct_item :: "nat \<Rightarrow> json \<Rightarrow> error + clause" where
  "direct_item idx it =
     (if it = JNull then Inl TypeError
      else
        case ToString (or_else (coalesce (get_prop ''risk'' it) (get_prop ''risk_level'' it)) (JStr ''moderate'')) of
          Inl e \<Rightarrow> Inl e
        | Inr r \<Rightarrow> Inr \<lparr>
            c_id = or_else (get_prop ''id'' it) JNull,
            c_text = or_else (coalesce (get_prop ''text'' it) (get_prop ''clause_text'' it)) (JStr []),
            c_type = or_else (coalesce (coalesce (get_prop ''type'' it) (get_prop ''clause_type'' it))
                       (get_prop ''category'' it)) (JStr ''Unspecified''),
            c_risk = toLowerCase r,
            c_implications = or_else (get_prop ''implications'' it) JNull \<rparr>)"

section \<open>\<open>parseNestedClauses\<close>\<close>

text \<open>
  Every attempt of \<open>parseNestedClauses\<close> is a \<open>try\<close> block that returns from the function when
  it succeeds and falls through when anything in it throws.  An attempt is modelled as an
  option: \<open>Some records\<close> when the function returns \<open>records\<close> there, \<open>None\<close> when control goes
  on to the next attempt.

  \<open>try { const parsed = JSON.parse(s); if (Array.isArray(parsed)) return normalize(parsed); }
  catch (err) { }\<close>: the exception of \<open>normalize\<close> is caught like the one of \<open>JSON.parse\<close>.
\<close>

definition try_array :: "string \<Rightarrow> clause list option" where
  "try_array s =
     (case JSON_parse s of
        Some (JArr parsed) \<Rightarrow> (case normalize parsed of Inl err \<Rightarrow> None | Inr records \<Rightarrow> Some records)
      | _ \<Rightarrow> None)"

text \<open>The loop \<open>for (const m of objMatches) { try { objs.push(JSON.parse(m)) } catch (e) { } }\<close>\<close>

fun parse_each :: "string list \<Rightarrow> json list" where
  "parse_each [] = []"
| "parse_each (m # ms) =
     (case JSON_parse m of None \<Rightarrow> parse_each ms | Some p \<Rightarrow> p # parse_each ms)"

text \<open>Fallback 3, the scan for single objects.\<close>

definition scan_objects :: "string \<Rightarrow> clause list option" where
  "scan_objects cleaned =
     (let objs = parse_each (match_objects cleaned)
      in if length objs > 0
         then (case normalize objs of Inl err \<Rightarrow> None | Inr records \<Rightarrow> Some records)
         else None)"

definition otherwise :: "'a option \<Rightarrow> 'a option \<Rightarrow> 'a option" where
  "otherwise a b = (case a of None \<Rightarrow> b | Some x \<Rightarrow> Some x)"

text \<open>The attempts on a candidate string, in the order of the source: the strict parse,
  Fallback 1 (unquote), Fallback 1b (unescape), Fallback 2 (the bracketed substring) and
  Fallback 3 (single objects).\<close>

definition candidate_attempts :: "string \<Rightarrow> clause list option" where
  "candidate_attempts candidate =
     (let cleaned = strip_fences candidate
      in otherwise (try_array cleaned)
        (otherwise (try_array (unquoted cleaned))
        (otherwise (try_array (unescaped cleaned))
        (otherwise (case bracket_substring cleaned of None \<Rightarrow> None | Some sub \<Rightarrow> try_array sub)
        (scan_objects cleaned)))))"

text \<open>The search of the whole payload: \<open>JSON.stringify(rawData)\<close>, cut from its first \<open>[\<close> to
  its last \<open>]\<close>.\<close>

definition payload_scan :: "json \<Rightarrow> clause list option" where
  "payload_scan rawData =
     (case bracket_substring (JSON_stringify rawData) of None \<Rightarrow> None | Some sub \<Rightarrow> try_array sub)"

text \<open>The last resort.  It stands in no \<open>try\<close> block: its exception leaves the function.\<close>

definition last_resort :: "json \<Rightarrow> error + clause list" where
  "last_resort rawData =
     (case chain (Some rawData) (get_prop ''clauses'') of
        Some (JArr clauses) \<Rightarrow> map_indexed direct_item 0 clauses
      | _ \<Rightarrow> Inr [])"

text \<open>\<open>x?.clauses?.[0]?.k\<close>\<close>

definition first_clause :: "string \<Rightarrow> json \<Rightarrow> json option" where
  "first_clause k x = chain (chain (chain (Some x) (get_prop ''clauses'')) index0) (get_prop k)"

definition parseNestedClauses :: "json \<Rightarrow> error + clause list" where
  "parseNestedClauses rawData =
     (if \<not> truthy rawData then Inr []
      else
        let block = or_else (coalesce (first_clause ''text'' rawData) (first_clause ''body'' rawData)) JNull;
            candidate = (case block of JStr s \<Rightarrow> Some s | _ \<Rightarrow> None)
        in case otherwise
                  (case candidate of
                     None \<Rightarrow> None
                   | Some c \<Rightarrow> if c \<noteq> [] then candidate_attempts c else None)
                  (payload_scan rawData) of
             Some records \<Rightarrow> Inr records
           | None \<Rightarrow> last_resort rawData)"

section \<open>\<open>generateSummary\<close>\<close>

text \<open>\<open>(c.type || '').trim()\<close>: a truthy value that is not a string has no \<open>trim\<close>.\<close>

definition type_trimmed :: "clause \<Rightarrow> error + string" where
  "type_trimmed c =
     (if \<not> truthy (c_type c) then Inr []
      else case c_type c of JStr s \<Rightarrow> Inr (trim s) | _ \<Rightarrow> Inl TypeError)"

fun map_throwing :: "('a \<Rightarrow> error + 'b) \<Rightarrow> 'a list \<Rightarrow> error + 'b list" where
  "map_throwing f [] = Inr []"
| "map_throwing f (x # xs) =
     (case f x of
        Inl e \<Rightarrow> Inl e
      | Inr y \<Rightarrow> (case map_throwing f xs of Inl e \<Rightarrow> Inl e | Inr ys \<Rightarrow> Inr (y # ys)))"

text \<open>\<open>Array.from(new Set(xs))\<close>: the first occurrence of each string, in order.\<close>

fun distinct_from :: "string list \<Rightarrow> string list \<Rightarrow> string list" where
  "distinct_from seen [] = []"
| "distinct_from seen (x # xs) =
     (if x \<in> set seen then distinct_from seen xs else x # distinct_from (x # seen) xs)"

text \<open>\<open>s.replace(/\s+/g, ' ')\<close>; the flag says that the previous character was white space.\<close>

fun collapse_spaces :: "bool \<Rightarrow> string \<Rightarrow> string" where
  "collapse_spaces b [] = []"
| "collapse_spaces b (c # cs) =
     (if is_space c then (if b then collapse_spaces True cs else CHR 0x20 # collapse_spaces True cs)
      else c # collapse_spaces False cs)"

definition backend_summary :: "json \<Rightarrow> string option" where
  "backend_summary rawData =
     (case chain (Some rawData) (get_prop ''summary'') of
        Some (JStr backendSummary) \<Rightarrow>
          if backendSummary \<noteq> [] \<and> length (trim backendSummary) > 0 then Some backendSummary else None
      | _ \<Rightarrow> None)"

text \<open>The three parts of the sentence.  Only \<open>implications.join('; ')\<close> can throw: the
  implications are values of the payload, converted by \<open>ToString\<close>.\<close>

definition catPart_of :: "string list \<Rightarrow> string" where
  "catPart_of categories =
     (if length categories > 0 then intercalate '', '' (take 4 categories)
      else ''general contractual terms'')"

definition riskPart_of :: "string list \<Rightarrow> string" where
  "riskPart_of risks =
     (if length risks > 0 then ''Risks identified: '' @ intercalate '', '' risks @ ''.'' else [])"

definition implicPart_of :: "json list \<Rightarrow> error + string" where
  "implicPart_of implications =
     (if length implications > 0
      then (case join ''; '' implications of
              Inl e \<Rightarrow> Inl e
            | Inr joined \<Rightarrow> Inr (''Notable implications include '' @ joined @ ''.''))
      else Inr [])"

definition generateSummary :: "json \<Rightarrow> clause list \<Rightarrow> error + string" where
  "generateSummary rawData parsedClauses =
     (case backend_summary rawData of
        Some backendSummary \<Rightarrow> Inr backendSummary
      | None \<Rightarrow>
          (if length parsedClauses = 0 then Inr ''No summary available.''
           else
             (case map_throwing type_trimmed (take 5 parsedClauses) of
                Inl e \<Rightarrow> Inl e
              | Inr types \<Rightarrow>
                  (case implicPart_of (take 5 (filter truthy (map c_implications (take 5 parsedClauses)))) of
                     Inl e \<Rightarrow> Inl e
                   | Inr implicPart \<Rightarrow>
                       Inr (trim (collapse_spaces False
                         (''This document contains clauses related to ''
                            @ catPart_of (distinct_from [] (filter (\<lambda>s. s \<noteq> []) types))
                            @ ''. '' @ implicPart @ '' ''
                            @ riskPart_of (distinct_from []
                                (filter (\<lambda>s. s \<noteq> [])
                                   (map (\<lambda>c. toLowerCase (c_risk c)) (take 5 parsedClauses)))))))))))"

section \<open>The values computed for rendering\<close>

definition extractObjectsFromText :: "string \<Rightarrow> json list" where
  "extractObjectsFromText text = (if text = [] then [] else parse_each (match_objects text))"

text \<open>\<open>cleanedInnerBlock\<close>: \<open>null\<close> is \<open>None\<close>.  A truthy \<open>_innerBlockRaw\<close> that is not a string
  has no method \<open>replace\<close>, and the call throws.\<close>

definition cleanedInnerBlock_of :: "json \<Rightarrow> error + string option" where
  "cleanedInnerBlock_of extractedClausesRaw =
     (let innerBlockRaw = or_else (first_clause ''text'' extractedClausesRaw) JNull
      in if \<not> truthy innerBlockRaw then Inr None
         else case innerBlockRaw of JStr s \<Rightarrow> Inr (Some (strip_fences s)) | _ \<Rightarrow> Inl TypeError)"

definition objectMatches_of :: "string option \<Rightarrow> json list" where
  "objectMatches_of cleanedInnerBlock =
     (case cleanedInnerBlock of
        None \<Rightarrow> []
      | Some s \<Rightarrow> if s \<noteq> [] then extractObjectsFromText s else [])"

definition parseMethod_of :: "clause list \<Rightarrow> clause list \<Rightarrow> string option \<Rightarrow> string" where
  "parseMethod_of parsedClauses objectClauses cleanedInnerBlock =
     (if length parsedClauses > 0 then ''array''
      else if length objectClauses > 0 then ''objects''
      else if cleanedInnerBlock \<noteq> None \<and> cleanedInnerBlock \<noteq> Some [] then ''raw-text''
      else ''none'')"

record extraction =
  parsedClauses :: "clause list"
  cleanedInnerBlock :: "string option"
  objectClauses :: "clause list"
  effectiveClauses :: "clause list"
  parseMethod :: string

text \<open>The statements of the component from \<open>const parsedClauses\<close> to \<open>const parseMethod\<close>.
  The arrow function that builds \<open>objectClauses\<close> is the one of \<open>normalize\<close>, written out a
  second time in the source.\<close>

definition extraction_of :: "json \<Rightarrow> error + extraction" where
  "extraction_of extractedClausesRaw =
     (case parseNestedClauses extractedClausesRaw of
        Inl e \<Rightarrow> Inl e
      | Inr parsed \<Rightarrow>
          (case cleanedInnerBlock_of extractedClausesRaw of
             Inl e \<Rightarrow> Inl e
           | Inr inner \<Rightarrow>
               (case normalize (objectMatches_of inner) of
                  Inl e \<Rightarrow> Inl e
                | Inr objs \<Rightarrow> Inr \<lparr>
                    parsedClauses = parsed,
                    cleanedInnerBlock = inner,
                    objectClauses = objs,
                    effectiveClauses = (if length parsed > 0 then parsed else objs),
                    parseMethod = parseMethod_of parsed objs inner \<rparr>)))"

definition finalSummary :: "json \<Rightarrow> error + string" where
  "finalSummary extractedClausesRaw =
     (case extraction_of extractedClausesRaw of
        Inl e \<Rightarrow> Inl e
      | Inr x \<Rightarrow> generateSummary extractedClausesRaw (effectiveClauses x))"

section \<open>A text cut at an escape sequence\<close>

text \<open>
  What a global \<open>replace\<close> of the two characters backslash, \<open>c\<close> does is said without the
  function that does it: the text is cut at every occurrence of the pair, read from the left,
  and the parts are joined again with the replacement between them.  \<open>has_escape c s\<close> holds
  when the pair stands somewhere in \<open>s\<close>; \<open>cut_at c s parts\<close> holds when \<open>s\<close> is the parts with the
  pair between every two of them, and no part holds the pair.
\<close>

fun has_escape :: "char \<Rightarrow> string \<Rightarrow> bool" where
  "has_escape c (x # y # r) = ((x = CHR 0x5C \<and> y = c) \<or> has_escape c (y # r))"
| "has_escape c s = False"

definition cut_at :: "char \<Rightarrow> string \<Rightarrow> string list \<Rightarrow> bool" where
  "cut_at c s parts \<longleftrightarrow>
     parts \<noteq> [] \<and> list_all (\<lambda>u. \<not> has_escape c u) parts \<and> s = intercalate [CHR 0x5C, c] parts"

text \<open>The parts of a text, computed: every text has them.\<close>

fun parts_of :: "char \<Rightarrow> string \<Rightarrow> string list" where
  "parts_of c (x # y # r) =
     (if x = CHR 0x5C \<and> y = c then [] # parts_of c r
      else (case parts_of c (y # r) of [] \<Rightarrow> [[x]] | u # us \<Rightarrow> (x # u) # us))"
| "parts_of c s = [s]"

section \<open>Records numbered by position\<close>

text \<open>The \<open>id\<close> of every record is its position in the list.\<close>

definition ids_are_indices :: "clause list \<Rightarrow> bool" where
  "ids_are_indices records = (map c_id records = map (\<lambda>i. JNum (of_nat i)) [0..<length records])"

section \<open>Payloads with the same members\<close>

text \<open>
  Two payloads that a comparison member by member does not tell apart: the same value, or
  two objects that hold the same members, each name once, listed in any order.
\<close>

fun same_members :: "json \<Rightarrow> json \<Rightarrow> bool" where
  "same_members (JObj xs) (JObj ys) =
     (xs = ys \<or> (distinct (map fst xs) \<and> distinct (map fst ys) \<and> set xs = set ys))"
| "same_members a b = (a = b)"

section \<open>Auxiliary notions for the parser\<close>







section \<open>Values that convert to a string\<close>


section \<open>Example payloads\<close>

definition dq :: string where
  "dq = [CHR 0x22]"

text \<open>\<open>{"clause_text":"a"}{"clause_text":"b"}{"clause_text":}\<close>: two objects with no array
  around them, and a malformed one.\<close>

definition object_a :: string where
  "object_a = ''{'' @ dq @ ''clause_text'' @ dq @ '':'' @ dq @ ''a'' @ dq @ ''}''"

definition object_b :: string where
  "object_b = ''{'' @ dq @ ''clause_text'' @ dq @ '':'' @ dq @ ''b'' @ dq @ ''}''"

definition object_malformed :: string where
  "object_malformed = ''{'' @ dq @ ''clause_text'' @ dq @ '':}''"

text \<open>\<open>{"clauses":[{"text": t}]}\<close> and \<open>{"clauses":[{"body": t}]}\<close>\<close>

definition payload_of_text :: "string \<Rightarrow> json" where
  "payload_of_text t = JObj [(''clauses'', JArr [JObj [(''text'', JStr t)]])]"

definition payload_of_body :: "string \<Rightarrow> json" where
  "payload_of_body t = JObj [(''clauses'', JArr [JObj [(''body'', JStr t)]])]"

text \<open>\<open>[{"clause_text":"a","meta":{}},null]\<close>\<close>

definition array_with_null :: string where
  "array_with_null = ''[{'' @ dq @ ''clause_text'' @ dq @ '':'' @ dq @ ''a'' @ dq @ '','' @ dq @ ''meta'' @ dq
     @ '':{}},null]''"

text \<open>\<open>{"clauses":{"0":{"body":"hello"}}}\<close>: the first clause is found under the key \<open>"0"\<close> of
  an object, and its text is in \<open>body\<close>.\<close>

definition payload_object_clauses :: json where
  "payload_object_clauses = JObj [(''clauses'', JObj [(''0'', JObj [(''body'', JStr ''hello'')])])]"

text \<open>\<open>{"clauses":[{"id":"c-17","text":"Payment due"}],"note":"see [1]"}\<close>\<close>

definition payload_with_note :: json where
  "payload_with_note =
     JObj [(''clauses'', JArr [JObj [(''id'', JStr ''c-17''), (''text'', JStr ''Payment due'')]]),
           (''note'', JStr ''see [1]'')]"

text \<open>\<open>{"clauses":[{"text":"Payment due"}],"note":"see ["}\<close> and the same members with \<open>note\<close>
  first.\<close>

definition payload_note_last :: json where
  "payload_note_last =
     JObj [(''clauses'', JArr [JObj [(''text'', JStr ''Payment due'')]]), (''note'', JStr ''see ['')]"

definition payload_note_first :: json where
  "payload_note_first =
     JObj [(''note'', JStr ''see [''), (''clauses'', JArr [JObj [(''text'', JStr ''Payment due'')]])]"

text \<open>\<open>{"clauses":[{"text":"{\"clause_text\":\"a\"}"}],"summary":"Short"}\<close> and the same members
  with \<open>summary\<close> first.\<close>

definition payload_summary_last :: json where
  "payload_summary_last =
     JObj [(''clauses'', JArr [JObj [(''text'', JStr object_a)]]), (''summary'', JStr ''Short'')]"

definition payload_summary_first :: json where
  "payload_summary_first =
     JObj [(''summary'', JStr ''Short''), (''clauses'', JArr [JObj [(''text'', JStr object_a)]])]"

section \<open>Properties of the string operations\<close>

lemma replace_fence_open_id: "\<not> has_fence s \<Longrightarrow> replace_fence_open s = s"
  by (induction s) auto

lemma has_fence_append: "has_fence (a @ fence @ b)"
  by (induction a) (auto simp: fence_def)

lemma rev_fence: "rev fence = fence"
  by (simp add: fence_def)

lemma replace_fence_close_id:
  assumes "\<not> has_fence s"
  shows "replace_fence_close s = s"
proof (cases "take 3 (rev s) = fence")
  case True
  have "rev s = take 3 (rev s) @ drop 3 (rev s)" by simp
  with True have "rev s = fence @ drop 3 (rev s)" by simp
  then have "s = rev (drop 3 (rev s)) @ fence @ []"
    by (metis append_Nil2 rev_append rev_fence rev_rev_ident)
  then have "has_fence s" using has_fence_append by metis
  with assms show ?thesis by simp
next
  case False
  then show ?thesis by (simp add: replace_fence_close_def)
qed

lemma dropWhile_fix: "xs = [] \<or> \<not> P (hd xs) \<Longrightarrow> dropWhile P xs = xs"
  by (cases xs) auto

lemma dropWhile_snoc_keep: "\<not> P x \<Longrightarrow> \<exists>zs. dropWhile P (ys @ [x]) = zs @ [x]"
  by (induction ys) auto

lemma trim_no_lead: "trim s = [] \<or> \<not> is_space (hd (trim s))"
proof (cases "dropWhile is_space s")
  case Nil
  have "trim s = []" unfolding trim_def Nil by simp
  then show ?thesis by simp
next
  case (Cons x t)
  then have nx: "\<not> is_space x"
    by (metis hd_dropWhile list.sel(1) list.simps(3))
  obtain zs where "dropWhile is_space (rev t @ [x]) = zs @ [x]"
    using dropWhile_snoc_keep [of is_space x "rev t"] nx by blast
  then have "trim s = x # rev zs" by (simp add: trim_def Cons)
  with nx show ?thesis by simp
qed

lemma trim_no_trail: "rev (trim s) = [] \<or> \<not> is_space (hd (rev (trim s)))"
  by (metis dropWhile_eq_Cons_conv hd_Cons_tl rev_rev_ident trim_def)

lemma trim_trim: "trim (trim s) = trim s"
proof -
  have "dropWhile is_space (trim s) = trim s"
    using trim_no_lead by (rule dropWhile_fix)
  moreover have "dropWhile is_space (rev (trim s)) = rev (trim s)"
    using trim_no_trail by (rule dropWhile_fix)
  ultimately show ?thesis by (simp add: trim_def [of "trim s"])
qed

lemma strip_fences_without_fence: "\<not> has_fence s \<Longrightarrow> strip_fences s = trim s"
  by (simp add: strip_fences_def replace_fence_open_id replace_fence_close_id)

text \<open>
  Claim C8, as stated: cleaning a string twice gives what cleaning it once gives.  It fails:
  the first pattern removes only the leftmost fence, so a string that opens with two fences
  keeps one after the first cleaning and loses it in the second.
\<close>

theorem C8_not_idempotent:
  "strip_fences (strip_fences [CHR 0x60, CHR 0x60, CHR 0x60, CHR 0x60, CHR 0x60, CHR 0x60, CHR ''x''])
     \<noteq> strip_fences [CHR 0x60, CHR 0x60, CHR 0x60, CHR 0x60, CHR 0x60, CHR 0x60, CHR ''x'']"
  by code_simp

text \<open>
  Claim C8, amended: the cleaning step is a total function on strings; cleaning a second time
  changes nothing whenever the string cleaned once holds no further fence marker; and a string
  with no fence marker at all comes back trimmed and otherwise unchanged.
\<close>

theorem C8_idempotent_without_fence:
  "(\<not> has_fence (strip_fences s) \<longrightarrow> strip_fences (strip_fences s) = strip_fences s) \<and>
   (\<not> has_fence s \<longrightarrow> strip_fences s = trim s)"
proof (intro conjI impI)
  assume "\<not> has_fence (strip_fences s)"
  then have "strip_fences (strip_fences s) = trim (strip_fences s)"
    by (rule strip_fences_without_fence)
  also have "\<dots> = strip_fences s"
    by (simp add: strip_fences_def trim_trim)
  finally show "strip_fences (strip_fences s) = strip_fences s" .
next
  assume "\<not> has_fence s"
  then show "strip_fences s = trim s" by (rule strip_fences_without_fence)
qed

theorem C8_idempotent_without_fence_witness:
  "\<not> has_fence (strip_fences ([CHR 0x60, CHR 0x60, CHR 0x60] @ ''json [1] '' @ [CHR 0x60, CHR 0x60, CHR 0x60])) \<and>
   strip_fences (strip_fences ([CHR 0x60, CHR 0x60, CHR 0x60] @ ''json [1] '' @ [CHR 0x60, CHR 0x60, CHR 0x60]))
     = strip_fences ([CHR 0x60, CHR 0x60, CHR 0x60] @ ''json [1] '' @ [CHR 0x60, CHR 0x60, CHR 0x60]) \<and>
   strip_fences ([CHR 0x60, CHR 0x60, CHR 0x60] @ ''json [1] '' @ [CHR 0x60, CHR 0x60, CHR 0x60]) = ''[1]'' \<and>
   \<not> has_fence ''  [1] '' \<and> strip_fences ''  [1] '' = trim ''  [1] ''"
proof -
  have a: "\<not> has_fence (strip_fences ([CHR 0x60, CHR 0x60, CHR 0x60] @ ''json [1] '' @ [CHR 0x60, CHR 0x60, CHR 0x60]))"
    by code_simp
  have b: "strip_fences ([CHR 0x60, CHR 0x60, CHR 0x60] @ ''json [1] '' @ [CHR 0x60, CHR 0x60, CHR 0x60]) = ''[1]''"
    by code_simp
  have c: "\<not> has_fence ''  [1] ''"
    by code_simp
  show ?thesis
    using a b c
      C8_idempotent_without_fence [of "[CHR 0x60, CHR 0x60, CHR 0x60] @ ''json [1] '' @ [CHR 0x60, CHR 0x60, CHR 0x60]"]
      C8_idempotent_without_fence [of "''  [1] ''"]
    by blast
qed

lemma set_replace_escape: "set rep \<subseteq> {c} \<Longrightarrow> set (replace_escape c rep s) \<subseteq> set s"
  by (induction c rep s rule: replace_escape.induct) auto

text \<open>
  Claim C4, as stated: Fallback 1b puts a newline where the text has backslash-n.  It fails:
  the sequence is deleted, nothing takes its place.
\<close>

theorem C4_newline_escape_deleted:
  "unescaped [CHR ''a'', CHR 0x5C, CHR ''n'', CHR ''b''] = ''ab'' \<and>
   unescaped [CHR ''a'', CHR 0x5C, CHR ''n'', CHR ''b''] \<noteq> [CHR ''a'', CHR 0x0A, CHR ''b'']"
  by code_simp

lemma parts_of_not_empty: "parts_of c s \<noteq> []"
  by (induction c s rule: parts_of.induct) (auto split: list.splits)

lemma intercalate_push: "intercalate p ((x # u) # us) = x # intercalate p (u # us)"
  by (cases us) auto

lemma intercalate_empty_head: "us \<noteq> [] \<Longrightarrow> intercalate p ([] # us) = p @ intercalate p us"
  by (cases us) auto

lemma parts_of_join: "intercalate [CHR 0x5C, c] (parts_of c s) = s"
  by (induction c s rule: parts_of.induct)
     (auto simp: intercalate_push intercalate_empty_head parts_of_not_empty split: list.splits)

lemma parts_of_head: "parts_of c (y # r) = u # us \<Longrightarrow> u = [] \<or> (\<exists>u'. u = y # u')"
  by (cases r) (auto split: if_splits list.splits)

lemma has_escape_Cons:
  "\<not> (x = CHR 0x5C \<and> y = c) \<Longrightarrow> u = [] \<or> (\<exists>u'. u = y # u') \<Longrightarrow> \<not> has_escape c u \<Longrightarrow> \<not> has_escape c (x # u)"
  by auto

lemma parts_of_free: "list_all (\<lambda>u. \<not> has_escape c u) (parts_of c s)"
proof (induction c s rule: parts_of.induct)
  case (1 c x y r)
  show ?case
  proof (cases "x = CHR 0x5C \<and> y = c")
    case True
    then show ?thesis using 1 by simp
  next
    case False
    obtain u us where p: "parts_of c (y # r) = u # us"
      using parts_of_not_empty [of c "y # r"] by (cases "parts_of c (y # r)") auto
    have "list_all (\<lambda>u. \<not> has_escape c u) (u # us)" using 1(2) False p by simp
    moreover have "u = [] \<or> (\<exists>u'. u = y # u')" using parts_of_head [OF p] .
    ultimately have "\<not> has_escape c (x # u)" using False has_escape_Cons [of x y c u] by auto
    then show ?thesis using False p \<open>list_all (\<lambda>u. \<not> has_escape c u) (u # us)\<close> by auto
  qed
qed simp_all

lemma cut_at_parts_of: "cut_at c s (parts_of c s)"
  by (simp add: cut_at_def parts_of_not_empty parts_of_free parts_of_join)

lemma replace_escape_free: "\<not> has_escape c u \<Longrightarrow> replace_escape c rep u = u"
  by (induction c u rule: has_escape.induct) auto

lemma replace_escape_part:
  "\<not> has_escape c u \<Longrightarrow> c \<noteq> CHR 0x5C \<Longrightarrow>
   replace_escape c rep (u @ CHR 0x5C # c # t) = u @ rep @ replace_escape c rep t"
  by (induction c u rule: has_escape.induct) auto

lemma replace_escape_join:
  assumes "c \<noteq> CHR 0x5C" "us \<noteq> []" "list_all (\<lambda>u. \<not> has_escape c u) us"
  shows "replace_escape c rep (intercalate [CHR 0x5C, c] us) = intercalate rep us"
  using assms(2,3)
proof (induction us rule: intercalate.induct [where ?a0.0 = rep])
  case (1 sep)
  then show ?case by simp
next
  case (2 sep s)
  then show ?case by (simp add: replace_escape_free)
next
  case (3 sep s t ss)
  then show ?case using assms(1) by (simp add: replace_escape_part)
qed

lemma replace_escape_cut:
  "c \<noteq> CHR 0x5C \<Longrightarrow> cut_at c s us \<Longrightarrow> replace_escape c rep s = intercalate rep us"
  by (simp add: cut_at_def replace_escape_join)

lemma intercalate_Nil: "intercalate [] us = concat us"
  by (induction us rule: induct_list012) auto

text \<open>
  Claim C4, amended: before it parses again, Fallback 1b makes three replacements over the
  whole text, one after the other, each on the result of the one before: every backslash-n is
  deleted, then every backslash-r is deleted, then every backslash-quote becomes a double
  quote.  Said with cuts, for every text \<open>s\<close>: \<open>s\<close> can be cut at backslash-n, the parts put
  together can be cut at backslash-r, those parts put together can be cut at backslash-quote,
  and whichever way this is done the result is the last parts joined by double quotes.  No
  character is inserted that the text does not hold already, so no newline and no carriage
  return.  As a later replacement works on what an earlier one left, a text escaped twice
  can lose more than its escape sequences: of backslash, backslash, n, r nothing is left.
\<close>

theorem C4_unescaped_cuts:
  "(\<exists>us vs ws. cut_at CHR ''n'' s us \<and> cut_at CHR ''r'' (concat us) vs \<and> cut_at (CHR 0x22) (concat vs) ws)
   \<and> (cut_at CHR ''n'' s us \<and> cut_at CHR ''r'' (concat us) vs \<and> cut_at (CHR 0x22) (concat vs) ws
        \<longrightarrow> unescaped s = intercalate [CHR 0x22] ws)
   \<and> set (unescaped s) \<subseteq> set s"
proof (intro conjI)
  show "\<exists>us vs ws. cut_at CHR ''n'' s us \<and> cut_at CHR ''r'' (concat us) vs \<and> cut_at (CHR 0x22) (concat vs) ws"
    using cut_at_parts_of by blast
  show "cut_at CHR ''n'' s us \<and> cut_at CHR ''r'' (concat us) vs \<and> cut_at (CHR 0x22) (concat vs) ws
        \<longrightarrow> unescaped s = intercalate [CHR 0x22] ws"
  proof
    assume a: "cut_at CHR ''n'' s us \<and> cut_at CHR ''r'' (concat us) vs \<and> cut_at (CHR 0x22) (concat vs) ws"
    have 1: "replace_escape CHR ''n'' [] s = concat us"
      using a replace_escape_cut [of "CHR ''n''" s us "[]"] by (simp add: intercalate_Nil)
    have 2: "replace_escape CHR ''r'' [] (concat us) = concat vs"
      using a replace_escape_cut [of "CHR ''r''" "concat us" vs "[]"] by (simp add: intercalate_Nil)
    have 3: "replace_escape (CHR 0x22) [CHR 0x22] (concat vs) = intercalate [CHR 0x22] ws"
      using a replace_escape_cut [of "CHR 0x22" "concat vs" ws "[CHR 0x22]"] by simp
    show "unescaped s = intercalate [CHR 0x22] ws" by (simp add: unescaped_def 1 2 3)
  qed
  show "set (unescaped s) \<subseteq> set s"
    unfolding unescaped_def
    by (rule subset_trans [OF set_replace_escape subset_trans [OF set_replace_escape set_replace_escape]]) simp_all
qed

theorem C4_unescaped_cuts_witness:
  "cut_at CHR ''n'' [CHR 0x5C, CHR 0x5C, CHR ''n'', CHR ''r''] [[CHR 0x5C], [CHR ''r'']]
   \<and> cut_at CHR ''r'' (concat [[CHR 0x5C], [CHR ''r'']]) [[], []]
   \<and> cut_at (CHR 0x22) (concat [[], []]) [[]]
   \<and> unescaped [CHR 0x5C, CHR 0x5C, CHR ''n'', CHR ''r''] = intercalate [CHR 0x22] [[]]
   \<and> unescaped [CHR 0x5C, CHR 0x5C, CHR ''n'', CHR ''r''] = []"
  using C4_unescaped_cuts [of "[CHR 0x5C, CHR 0x5C, CHR ''n'', CHR ''r'']" "[[CHR 0x5C], [CHR ''r'']]" "[[], []]" "[[]]"]
  by (simp add: cut_at_def)

section \<open>Properties of the parser\<close>



















lemma strip_fences_empty: "strip_fences [] = []"
  by code_simp



































section \<open>Properties of the extraction\<close>

text \<open>The example texts are the JSON texts of the values they are meant to be.\<close>

lemma example_texts:
  "object_a = JSON_stringify (JObj [(''clause_text'', JStr ''a'')]) \<and>
   object_b = JSON_stringify (JObj [(''clause_text'', JStr ''b'')]) \<and>
   array_with_null = JSON_stringify (JArr [JObj [(''clause_text'', JStr ''a''), (''meta'', JObj [])], JNull])"
  by code_simp



lemma map_indexed_normalize_ids:
  "map_indexed normalize_item k arr = Inr records \<Longrightarrow>
   length records = length arr \<and> map c_id records = map (\<lambda>i. JNum (of_nat i)) [k..<k + length arr]"
proof (induction arr arbitrary: k records)
  case Nil
  then show ?case by simp
next
  case (Cons item items)
  from Cons.prems obtain c cs where
    c: "normalize_item k item = Inr c" and cs: "map_indexed normalize_item (Suc k) items = Inr cs"
    and r: "records = c # cs"
    by (auto split: sum.splits)
  from c have "c_id c = JNum (of_nat k)"
    by (auto simp: normalize_item_def split: if_splits sum.splits)
  moreover have "[k..<k + length (item # items)] = k # [Suc k..<Suc k + length items]"
    by (simp add: upt_conv_Cons del: upt_Suc)
  ultimately show ?case using Cons.IH [OF cs] r by simp
qed

lemma normalize_ids: "normalize arr = Inr records \<Longrightarrow> length records = length arr \<and> ids_are_indices records"
  using map_indexed_normalize_ids [of 0 arr records] by (simp add: normalize_def ids_are_indices_def)

lemma try_array_ids: "try_array s = Some records \<Longrightarrow> ids_are_indices records"
  by (auto simp: try_array_def normalize_ids split: option.splits json.splits sum.splits)

lemma scan_objects_ids: "scan_objects s = Some records \<Longrightarrow> ids_are_indices records"
  by (auto simp: scan_objects_def Let_def normalize_ids split: if_splits sum.splits)

lemma candidate_attempts_ids: "candidate_attempts c = Some records \<Longrightarrow> ids_are_indices records"
  by (auto simp: candidate_attempts_def Let_def otherwise_def try_array_ids scan_objects_ids split: option.splits)

lemma payload_scan_ids: "payload_scan rawData = Some records \<Longrightarrow> ids_are_indices records"
  by (auto simp: payload_scan_def try_array_ids split: option.splits)

lemma map_indexed_direct_ids:
  "map_indexed direct_item k clauses = Inr records \<Longrightarrow>
   map c_id records = map (\<lambda>it. or_else (get_prop ''id'' it) JNull) clauses"
proof (induction clauses arbitrary: k records)
  case Nil
  then show ?case by simp
next
  case (Cons x xs)
  from Cons.prems obtain c cs where
    c: "direct_item k x = Inr c" and cs: "map_indexed direct_item (Suc k) xs = Inr cs"
    and r: "records = c # cs"
    by (auto split: sum.splits)
  from c have "c_id c = or_else (get_prop ''id'' x) JNull"
    by (auto simp: direct_item_def split: if_splits sum.splits)
  then show ?case using Cons.IH [OF cs] r by simp
qed

text \<open>
  Claim C1 says that no exception leaves the extraction, whatever the payload, a \<open>clauses\<close>
  array with a \<open>null\<close> entry included.  The code throws there.  With
  \<open>{"clauses":[{"clause_text":"Payment due"},null]}\<close> the scan of the whole payload parses the
  array and \<open>normalize\<close> throws on \<open>null\<close> inside its \<open>try\<close>; the last resort then maps over
  \<open>rawData.clauses\<close> outside any \<open>try\<close> and throws on the same entry.  With
  \<open>{"clauses":[{"text":true}]}\<close>, \<open>parseNestedClauses\<close> returns, and the computation of
  \<open>cleanedInnerBlock\<close> calls \<open>replace\<close> on \<open>true\<close>.
\<close>

theorem C1_exception_escapes:
  "parseNestedClauses (JObj [(''clauses'', JArr [JObj [(''clause_text'', JStr ''Payment due'')], JNull])])
     = Inl TypeError \<and>
   parseNestedClauses (JObj [(''clauses'', JArr [JObj [(''text'', JBool True)]])]) \<noteq> Inl TypeError \<and>
   extraction_of (JObj [(''clauses'', JArr [JObj [(''text'', JBool True)]])]) = Inl TypeError"
  by code_simp

text \<open>
  Claim C2, as stated: the \<open>id\<close> of every record is its index, in the last resort too.  It
  fails: the last resort keeps the \<open>id\<close> of the source.  The payload has a \<open>]\<close> after its
  \<open>clauses\<close>, so the scan of the whole payload cuts a substring that does not parse, and the
  last resort produces the record.
\<close>

theorem C2_last_resort_keeps_source_id:
  "parseNestedClauses payload_with_note =
     Inr [\<lparr>c_id = JStr ''c-17'', c_text = JStr ''Payment due'', c_type = JStr ''Unspecified'',
           c_risk = ''moderate'', c_implications = JNull\<rparr>] \<and>
   JStr ''c-17'' \<noteq> JNum 0"
  by code_simp

text \<open>
  Claim C2, amended: \<open>normalize\<close> gives one record for each element of the batch, and the
  \<open>id\<close> of each is its index in the batch, whatever \<open>id\<close> the source object carries.  So the
  records that \<open>parseNestedClauses\<close> returns have their indices as \<open>id\<close>, unless they come from
  the last resort: there the \<open>id\<close> of a record is the \<open>id\<close> of its source object, or \<open>null\<close>
  when it has none.
\<close>

theorem C2_ids:
  "(normalize arr = Inr records \<longrightarrow> length records = length arr \<and> ids_are_indices records) \<and>
   (candidate_attempts candidate = Some records \<longrightarrow> ids_are_indices records) \<and>
   (payload_scan rawData = Some records \<longrightarrow> ids_are_indices records) \<and>
   (parseNestedClauses rawData = Inr records \<longrightarrow>
      ids_are_indices records \<or>
      (last_resort rawData = Inr records \<and>
       (\<exists>clauses. get_prop ''clauses'' rawData = Some (JArr clauses) \<and>
          map c_id records = map (\<lambda>it. or_else (get_prop ''id'' it) JNull) clauses)))"
proof (intro conjI)
  show "normalize arr = Inr records \<longrightarrow> length records = length arr \<and> ids_are_indices records"
    using normalize_ids by blast
  show "candidate_attempts candidate = Some records \<longrightarrow> ids_are_indices records"
    using candidate_attempts_ids by blast
  show "payload_scan rawData = Some records \<longrightarrow> ids_are_indices records"
    using payload_scan_ids by blast
  show "parseNestedClauses rawData = Inr records \<longrightarrow>
      ids_are_indices records \<or>
      (last_resort rawData = Inr records \<and>
       (\<exists>clauses. get_prop ''clauses'' rawData = Some (JArr clauses) \<and>
          map c_id records = map (\<lambda>it. or_else (get_prop ''id'' it) JNull) clauses))"
  proof
    assume p: "parseNestedClauses rawData = Inr records"
    show "ids_are_indices records \<or>
      (last_resort rawData = Inr records \<and>
       (\<exists>clauses. get_prop ''clauses'' rawData = Some (JArr clauses) \<and>
          map c_id records = map (\<lambda>it. or_else (get_prop ''id'' it) JNull) clauses))"
    proof (cases "truthy rawData")
      case False
      with p have "records = []" by (simp add: parseNestedClauses_def)
      then show ?thesis by (simp add: ids_are_indices_def)
    next
      case True
      let ?block = "or_else (coalesce (first_clause ''text'' rawData) (first_clause ''body'' rawData)) JNull"
      let ?candidate = "case ?block of JStr s \<Rightarrow> Some s | _ \<Rightarrow> None"
      let ?first = "otherwise (case ?candidate of None \<Rightarrow> None | Some c \<Rightarrow> if c \<noteq> [] then candidate_attempts c else None)
                      (payload_scan rawData)"
      show ?thesis
      proof (cases ?first)
        case (Some rs)
        with p True have "records = rs" by (simp add: parseNestedClauses_def Let_def)
        moreover from Some have "ids_are_indices rs"
          by (auto simp: otherwise_def candidate_attempts_ids payload_scan_ids split: option.splits if_splits)
        ultimately show ?thesis by simp
      next
        case None
        with p True have lr: "last_resort rawData = Inr records" by (simp add: parseNestedClauses_def Let_def)
        show ?thesis
        proof (cases "\<exists>clauses. chain (Some rawData) (get_prop ''clauses'') = Some (JArr clauses)")
          case False
          with lr have "records = []" by (auto simp: last_resort_def split: option.splits json.splits)
          then show ?thesis by (simp add: ids_are_indices_def)
        next
          case True
          then obtain clauses where cl: "chain (Some rawData) (get_prop ''clauses'') = Some (JArr clauses)" by blast
          then have g: "get_prop ''clauses'' rawData = Some (JArr clauses)" by (cases rawData) auto
          from lr cl have "map_indexed direct_item 0 clauses = Inr records" by (simp add: last_resort_def)
          then have "map c_id records = map (\<lambda>it. or_else (get_prop ''id'' it) JNull) clauses"
            by (rule map_indexed_direct_ids)
          with lr g show ?thesis by blast
        qed
      qed
    qed
  qed
qed

theorem C2_ids_witness:
  "normalize [JObj [(''id'', JStr ''x''), (''clause_text'', JStr ''a'')], JObj [(''id'', JStr ''x'')]] =
     Inr [\<lparr>c_id = JNum 0, c_text = JStr ''a'', c_type = JStr ''Unspecified'', c_risk = ''moderate'',
            c_implications = JNull\<rparr>,
          \<lparr>c_id = JNum 1, c_text = JStr [], c_type = JStr ''Unspecified'', c_risk = ''moderate'',
            c_implications = JNull\<rparr>] \<and>
   ids_are_indices
        [\<lparr>c_id = JNum 0, c_text = JStr ''a'', c_type = JStr ''Unspecified'', c_risk = ''moderate'',
            c_implications = JNull\<rparr>,
          \<lparr>c_id = JNum 1, c_text = JStr [], c_type = JStr ''Unspecified'', c_risk = ''moderate'',
            c_implications = JNull\<rparr>] \<and>
   candidate_attempts object_a =
     Some [\<lparr>c_id = JNum 0, c_text = JStr ''a'', c_type = JStr ''Unspecified'', c_risk = ''moderate'',
            c_implications = JNull\<rparr>] \<and>
   payload_scan (payload_of_text object_a) =
     Some [\<lparr>c_id = JNum 0, c_text = JStr object_a, c_type = JStr ''Unspecified'', c_risk = ''moderate'',
            c_implications = JNull\<rparr>] \<and>
   ids_are_indices
        [\<lparr>c_id = JNum 0, c_text = JStr object_a, c_type = JStr ''Unspecified'', c_risk = ''moderate'',
            c_implications = JNull\<rparr>] \<and>
   parseNestedClauses (payload_of_text object_a) =
     Inr [\<lparr>c_id = JNum 0, c_text = JStr ''a'', c_type = JStr ''Unspecified'', c_risk = ''moderate'',
            c_implications = JNull\<rparr>] \<and>
   ids_are_indices
        [\<lparr>c_id = JNum 0, c_text = JStr ''a'', c_type = JStr ''Unspecified'', c_risk = ''moderate'',
            c_implications = JNull\<rparr>]"
proof -
  let ?r0 = "\<lparr>c_id = JNum 0, c_text = JStr ''a'', c_type = JStr ''Unspecified'', c_risk = ''moderate'',
            c_implications = JNull\<rparr>"
  let ?r1 = "\<lparr>c_id = JNum 1, c_text = JStr [], c_type = JStr ''Unspecified'', c_risk = ''moderate'',
            c_implications = JNull\<rparr>"
  let ?rw = "\<lparr>c_id = JNum 0, c_text = JStr object_a, c_type = JStr ''Unspecified'', c_risk = ''moderate'',
            c_implications = JNull\<rparr>"
  have a: "normalize [JObj [(''id'', JStr ''x''), (''clause_text'', JStr ''a'')], JObj [(''id'', JStr ''x'')]] =
     Inr [?r0, ?r1]" by code_simp
  have b: "candidate_attempts object_a = Some [?r0]" by code_simp
  have c: "payload_scan (payload_of_text object_a) = Some [?rw]" by code_simp
  have d: "parseNestedClauses (payload_of_text object_a) = Inr [?r0]" by code_simp
  from C2_ids [of "[JObj [(''id'', JStr ''x''), (''clause_text'', JStr ''a'')], JObj [(''id'', JStr ''x'')]]"
      "[?r0, ?r1]"] a
  have e: "ids_are_indices [?r0, ?r1]" by blast
  from C2_ids [of _ "[?r0]" object_a] b
  have f: "ids_are_indices [?r0]" by blast
  from C2_ids [of _ "[?rw]" _ "payload_of_text object_a"] c
  have g: "ids_are_indices [?rw]" by blast
  from a b c d e f g show ?thesis by simp
qed

text \<open>
  Claim C3 says that records found by the scan for single objects are reported with the
  method \<open>objects\<close>.  The code reports \<open>array\<close>: the scan is Fallback 3 inside
  \<open>parseNestedClauses\<close>, so \<open>parsedClauses\<close> is not empty and \<open>parseMethod\<close> takes its first
  branch.  On two objects followed by a malformed one, every attempt before Fallback 3 gives
  nothing, Fallback 3 gives the two records, and the method is \<open>array\<close>.
\<close>

theorem C3_single_objects_reported_as_array:
  "try_array (object_a @ object_b @ object_malformed) = None \<and>
   try_array (unquoted (object_a @ object_b @ object_malformed)) = None \<and>
   try_array (unescaped (object_a @ object_b @ object_malformed)) = None \<and>
   bracket_substring (object_a @ object_b @ object_malformed) = None \<and>
   map_option (map c_text) (scan_objects (object_a @ object_b @ object_malformed))
     = Some [JStr ''a'', JStr ''b''] \<and>
   (case extraction_of (payload_of_text (object_a @ object_b @ object_malformed)) of
      Inl e \<Rightarrow> None
    | Inr x \<Rightarrow> Some (map c_text (parsedClauses x), parseMethod x))
     = Some ([JStr ''a'', JStr ''b''], ''array'')"
  by code_simp















lemma same_members_get_prop: "same_members a b \<Longrightarrow> get_prop k a = get_prop k b"
proof (cases "a = b")
  case False
  assume "same_members a b"
  with False obtain xs ys where ab: "a = JObj xs" "b = JObj ys"
    and d: "distinct (map fst xs)" "distinct (map fst ys)" "set xs = set ys"
    by (cases a; cases b) auto
  from d have "map_of xs = map_of ys" by (simp add: map_of_inject_set)
  with ab show ?thesis by simp
qed simp

lemma same_members_truthy: "same_members a b \<Longrightarrow> truthy a = truthy b"
  by (cases a; cases b) auto

lemma same_members_chain:
  "same_members a b \<Longrightarrow> chain (Some a) (get_prop k) = chain (Some b) (get_prop k)"
  using same_members_get_prop [of a b k] by (cases a; cases b) auto

lemma same_members_first_clause: "same_members a b \<Longrightarrow> first_clause k a = first_clause k b"
  by (simp add: first_clause_def same_members_chain)

text \<open>
  Claim C6, as stated: two payloads that are deeply equal give records that are deeply
  equal and the same method.  It fails for two payloads that hold the same members in
  another order.  With \<open>note\<close> last, the text from the first \<open>[\<close> to the last \<open>]\<close> of
  \<open>JSON.stringify(rawData)\<close> is the array of clauses, and the record has the \<open>id\<close> 0; with
  \<open>note\<close> first, that text starts inside the note and does not parse, the last resort
  makes the record, and its \<open>id\<close> is \<open>null\<close>.
\<close>

theorem C6_member_order_changes_records:
  "same_members payload_note_last payload_note_first \<and>
   parseNestedClauses payload_note_last =
     Inr [\<lparr>c_id = JNum 0, c_text = JStr ''Payment due'', c_type = JStr ''Unspecified'',
           c_risk = ''moderate'', c_implications = JNull\<rparr>] \<and>
   parseNestedClauses payload_note_first =
     Inr [\<lparr>c_id = JNull, c_text = JStr ''Payment due'', c_type = JStr ''Unspecified'',
           c_risk = ''moderate'', c_implications = JNull\<rparr>] \<and>
   parseNestedClauses payload_note_last \<noteq> parseNestedClauses payload_note_first"
  by code_simp

text \<open>
  Claim C6, amended: the records, the method and the summary are computed from the payload
  and from nothing else, and the order in which an object of the payload lists its members
  is part of it.  For two payloads with the same members, in the same order or not, the
  candidate string, \<open>cleanedInnerBlock\<close>, the summary of the backend and the result of the
  last resort are the same.  The records, the method and the summary are the same as soon
  as the scan of \<open>JSON.stringify(rawData)\<close> gives the same for both, or an attempt on the
  candidate returns.
\<close>

theorem C6_same_members:
  assumes "same_members a b"
  shows "first_clause k a = first_clause k b \<and>
         cleanedInnerBlock_of a = cleanedInnerBlock_of b \<and>
         backend_summary a = backend_summary b \<and>
         last_resort a = last_resort b \<and>
         (payload_scan a = payload_scan b \<or>
          (\<exists>s records. or_else (coalesce (first_clause ''text'' a) (first_clause ''body'' a)) JNull = JStr s
             \<and> s \<noteq> [] \<and> candidate_attempts s = Some records)
          \<longrightarrow> parseNestedClauses a = parseNestedClauses b \<and> extraction_of a = extraction_of b
               \<and> finalSummary a = finalSummary b)"
proof -
  note fc = same_members_first_clause [OF assms]
  have inner: "cleanedInnerBlock_of a = cleanedInnerBlock_of b"
    by (simp add: cleanedInnerBlock_of_def fc)
  have summary: "backend_summary a = backend_summary b"
    by (simp add: backend_summary_def same_members_chain [OF assms])
  have lr: "last_resort a = last_resort b"
    by (simp add: last_resort_def same_members_chain [OF assms])
  have results: "parseNestedClauses a = parseNestedClauses b \<and> extraction_of a = extraction_of b
      \<and> finalSummary a = finalSummary b"
    if p: "parseNestedClauses a = parseNestedClauses b"
  proof -
    have e: "extraction_of a = extraction_of b" by (simp only: extraction_of_def p inner)
    have "finalSummary a = finalSummary b"
      by (simp only: finalSummary_def e generateSummary_def summary)
    with p e show ?thesis by simp
  qed
  have scan: "parseNestedClauses a = parseNestedClauses b" if "payload_scan a = payload_scan b"
    by (simp only: parseNestedClauses_def fc lr same_members_truthy [OF assms] that)
  have cand: "parseNestedClauses a = parseNestedClauses b"
    if "or_else (coalesce (first_clause ''text'' a) (first_clause ''body'' a)) JNull = JStr s"
      and "s \<noteq> []" and "candidate_attempts s = Some records" for s records
  proof -
    have "parseNestedClauses a = (if \<not> truthy a then Inr [] else Inr records)"
      using that by (simp add: parseNestedClauses_def otherwise_def Let_def)
    moreover have "parseNestedClauses b = (if \<not> truthy b then Inr [] else Inr records)"
      using that by (simp add: parseNestedClauses_def otherwise_def Let_def fc [symmetric])
    ultimately show ?thesis by (simp add: same_members_truthy [OF assms])
  qed
  show ?thesis using fc inner summary lr results scan cand by blast
qed

theorem C6_same_members_witness:
  "same_members payload_summary_last payload_summary_first \<and>
   payload_summary_last \<noteq> payload_summary_first \<and>
   payload_scan payload_summary_last = payload_scan payload_summary_first \<and>
   parseNestedClauses payload_summary_last = parseNestedClauses payload_summary_first \<and>
   extraction_of payload_summary_last = extraction_of payload_summary_first \<and>
   finalSummary payload_summary_last = finalSummary payload_summary_first \<and>
   parseNestedClauses payload_summary_first =
     Inr [\<lparr>c_id = JNum 0, c_text = JStr ''a'', c_type = JStr ''Unspecified'', c_risk = ''moderate'',
            c_implications = JNull\<rparr>] \<and>
   finalSummary payload_summary_first = Inr ''Short''"
proof -
  have a: "same_members payload_summary_last payload_summary_first" by code_simp
  have b: "payload_summary_last \<noteq> payload_summary_first" by code_simp
  have c: "payload_scan payload_summary_last = payload_scan payload_summary_first" by code_simp
  have d: "parseNestedClauses payload_summary_first =
     Inr [\<lparr>c_id = JNum 0, c_text = JStr ''a'', c_type = JStr ''Unspecified'', c_risk = ''moderate'',
            c_implications = JNull\<rparr>]" by code_simp
  have e: "finalSummary payload_summary_first = Inr ''Short''" by code_simp
  from C6_same_members [OF a] a b c d e show ?thesis by blast
qed

text \<open>
  Claim C7 says that a candidate string found in \<open>text\<close> or \<open>body\<close>, with no records from any
  attempt, gives the method \<open>raw-text\<close>, and that \<open>none\<close> is for a payload with no candidate.
  The code gives \<open>none\<close> for a candidate found in \<open>body\<close>.  \<open>parseNestedClauses\<close> looks for
  the candidate with \<open>rawData?.clauses?.[0]?.text ?? rawData?.clauses?.[0]?.body\<close>; the method is
  computed from \<open>cleanedInnerBlock\<close>, which is read a second time, with
  \<open>extractedClausesRaw?.clauses?.[0]?.text ?? null\<close>, and \<open>body\<close> is left out there.  In the first
  payload the candidate \<open>hello\<close> comes from \<open>body\<close>; every attempt fails on it, the payload has
  no bracket and its \<open>clauses\<close> is no array, so there are no records; the method is \<open>none\<close>.
  In the second, \<open>{"clauses":[{"body":"[ ]"}]}\<close>, the candidate comes from \<open>body\<close> too and the
  strict parse returns an empty list; the method is \<open>none\<close>.  The third payload,
  \<open>{"clauses":[{"text":"hello"}]}\<close>, shows what becomes of a candidate in \<open>text\<close> on which every
  attempt fails when \<open>clauses\<close> is an array: the scan of the whole payload finds that array, the
  wrapper of the candidate is made into a record, and the method is \<open>array\<close>.
\<close>

theorem C7_body_candidate_reports_none:
  "first_clause ''body'' payload_object_clauses = Some (JStr ''hello'') \<and>
   candidate_attempts ''hello'' = None \<and>
   extraction_of payload_object_clauses =
     Inr \<lparr>parsedClauses = [], cleanedInnerBlock = None, objectClauses = [], effectiveClauses = [],
          parseMethod = ''none''\<rparr> \<and>
   first_clause ''body'' (payload_of_body ''[ ]'') = Some (JStr ''[ ]'') \<and>
   extraction_of (payload_of_body ''[ ]'') =
     Inr \<lparr>parsedClauses = [], cleanedInnerBlock = None, objectClauses = [], effectiveClauses = [],
          parseMethod = ''none''\<rparr> \<and>
   extraction_of (payload_of_text ''hello'') =
     Inr \<lparr>parsedClauses =
            [\<lparr>c_id = JNum 0, c_text = JStr ''hello'', c_type = JStr ''Unspecified'',
               c_risk = ''moderate'', c_implications = JNull\<rparr>],
          cleanedInnerBlock = Some ''hello'', objectClauses = [],
          effectiveClauses =
            [\<lparr>c_id = JNum 0, c_text = JStr ''hello'', c_type = JStr ''Unspecified'',
               c_risk = ''moderate'', c_implications = JNull\<rparr>],
          parseMethod = ''array''\<rparr>"
  by code_simp

lemma inner_block_cases:
  assumes "cleanedInnerBlock_of rawData = Inr inner"
  shows "(inner \<noteq> None \<and> inner \<noteq> Some []) \<longleftrightarrow>
         (\<exists>s. first_clause ''text'' rawData = Some (JStr s) \<and> strip_fences s \<noteq> [])"
proof (cases "\<exists>s. first_clause ''text'' rawData = Some (JStr s)")
  case True
  then obtain s where s: "first_clause ''text'' rawData = Some (JStr s)" by blast
  show ?thesis
  proof (cases "s = []")
    case True
    with s assms have "inner = None" by (simp add: cleanedInnerBlock_of_def or_else_def)
    with s True show ?thesis by (simp add: strip_fences_empty)
  next
    case False
    with s assms have "inner = Some (strip_fences s)" by (simp add: cleanedInnerBlock_of_def or_else_def)
    with s show ?thesis by simp
  qed
next
  case False
  with assms have "inner = None"
    by (auto simp: cleanedInnerBlock_of_def or_else_def Let_def split: if_splits option.splits json.splits)
  with False show ?thesis by simp
qed

text \<open>
  What the code computes when the extraction ends with no records: \<open>raw-text\<close> exactly when
  the \<open>text\<close> field of the first clause is a string whose cleaned form is not empty, and
  \<open>none\<close> in every other case.
\<close>

lemma parseMethod_without_records:
  assumes "extraction_of rawData = Inr x" and "parsedClauses x = []" and "objectClauses x = []"
  shows "(parseMethod x = ''raw-text'' \<longleftrightarrow>
            (\<exists>s. first_clause ''text'' rawData = Some (JStr s) \<and> strip_fences s \<noteq> [])) \<and>
         (parseMethod x = ''none'' \<longleftrightarrow>
            \<not> (\<exists>s. first_clause ''text'' rawData = Some (JStr s) \<and> strip_fences s \<noteq> []))"
proof -
  from assms(1) obtain parsed inner objs where
    i: "cleanedInnerBlock_of rawData = Inr inner" and
    x: "x = \<lparr>parsedClauses = parsed, cleanedInnerBlock = inner, objectClauses = objs,
             effectiveClauses = (if length parsed > 0 then parsed else objs),
             parseMethod = parseMethod_of parsed objs inner\<rparr>"
    by (auto simp: extraction_of_def split: sum.splits)
  from x assms(2,3) have "parseMethod x = parseMethod_of [] [] inner" by simp
  then have m: "parseMethod x = (if inner \<noteq> None \<and> inner \<noteq> Some [] then ''raw-text'' else ''none'')"
    by (simp add: parseMethod_of_def)
  show ?thesis using m inner_block_cases [OF i] by auto
qed

text \<open>
  Claim C9, as stated: a \<open>summary\<close> that is a non-empty string is returned as it is.  It
  fails for a string of white space: the test is on the trimmed string.
\<close>

theorem C9_blank_summary_not_returned:
  "generateSummary (JObj [(''summary'', JStr '' '')]) [] = Inr ''No summary available.'' \<and>
   generateSummary (JObj [(''summary'', JStr '' '')]) [] \<noteq> Inr '' ''"
  by code_simp

text \<open>
  Claim C9, amended: when the \<open>summary\<close> of the payload is a string with a character that is
  not white space, \<open>generateSummary\<close> returns that string unchanged, whatever the records are;
  when the payload has no such summary and there are no records, it returns
  \<open>No summary available.\<close>
\<close>

theorem C9_summary_precedence:
  "(chain (Some rawData) (get_prop ''summary'') = Some (JStr s) \<and> trim s \<noteq> []
      \<longrightarrow> generateSummary rawData records = Inr s) \<and>
   ((\<forall>s. chain (Some rawData) (get_prop ''summary'') = Some (JStr s) \<longrightarrow> trim s = [])
      \<longrightarrow> generateSummary rawData [] = Inr ''No summary available.'')"
proof (intro conjI impI)
  assume a: "chain (Some rawData) (get_prop ''summary'') = Some (JStr s) \<and> trim s \<noteq> []"
  then have "s \<noteq> []" by (auto simp: trim_def)
  with a have "backend_summary rawData = Some s" by (simp add: backend_summary_def)
  then show "generateSummary rawData records = Inr s" by (simp add: generateSummary_def)
next
  assume "\<forall>s. chain (Some rawData) (get_prop ''summary'') = Some (JStr s) \<longrightarrow> trim s = []"
  then have "backend_summary rawData = None"
    by (auto simp: backend_summary_def split: option.splits json.splits)
  then show "generateSummary rawData [] = Inr ''No summary available.''" by (simp add: generateSummary_def)
qed

theorem C9_summary_precedence_witness:
  "chain (Some (JObj [(''summary'', JStr ''A lease.'')])) (get_prop ''summary'') = Some (JStr ''A lease.'') \<and>
   trim ''A lease.'' \<noteq> [] \<and>
   generateSummary (JObj [(''summary'', JStr ''A lease.'')])
     [\<lparr>c_id = JNum 0, c_text = JStr ''a'', c_type = JNum 5, c_risk = ''high'', c_implications = JNull\<rparr>]
     = Inr ''A lease.'' \<and>
   chain (Some (JObj [])) (get_prop ''summary'') = None \<and>
   generateSummary (JObj []) [] = Inr ''No summary available.''"
proof -
  have a: "chain (Some (JObj [(''summary'', JStr ''A lease.'')])) (get_prop ''summary'') = Some (JStr ''A lease.'')"
    by simp
  have b: "trim ''A lease.'' \<noteq> []" by code_simp
  have c: "chain (Some (JObj [])) (get_prop ''summary'') = None" by simp
  show ?thesis
    using a b c
      C9_summary_precedence [of "JObj [(''summary'', JStr ''A lease.'')]" "''A lease.''"
        "[\<lparr>c_id = JNum 0, c_text = JStr ''a'', c_type = JNum 5, c_risk = ''high'', c_implications = JNull\<rparr>]"]
      C9_summary_precedence [of "JObj []"]
    by simp
qed




end
